theory Spec2Isabelle
  imports Complex_Main "HOL-Library.AList"
begin

section \<open>Workload computations of \<open>pulse.py\<close>\<close>

text \<open>
  The module derives acute workload, chronic workload and their ratio from the daily
  snapshots of the Pulse sensor, and filters throw events. The embedding below follows
  the module function by function. Every exception the Python code can raise is a value
  of \<open>error\<close>, and a function that can raise returns \<open>error + 'a\<close>.

  Python floats are read as real numbers: sums and quotients are exact, and the claims
  proved here are the ones that do not depend on rounding.
\<close>

subsection \<open>Exceptions\<close>

datatype error =
    ValueError_isoformat    \<comment> \<open>\<open>date.fromisoformat\<close> on a string that is not a date\<close>
  | ValueError_empty        \<comment> \<open>\<open>min\<close> or \<open>max\<close> of an empty sequence\<close>
  | ValueError_range        \<comment> \<open>the module's own "Start date greater than end date"\<close>
  | OverflowError           \<comment> \<open>date arithmetic leaving \<open>date.min .. date.max\<close>\<close>
  | IndexError
  | ZeroDivisionError

fun is_ValueError :: "error \<Rightarrow> bool" where
  "is_ValueError ValueError_isoformat = True"
| "is_ValueError ValueError_empty = True"
| "is_ValueError ValueError_range = True"
| "is_ValueError OverflowError = False"
| "is_ValueError IndexError = False"
| "is_ValueError ZeroDivisionError = False"

subsection \<open>Calendar dates\<close>

text \<open>
  A \<open>datetime.date\<close> is identified with its proleptic Gregorian ordinal
  (\<open>date.toordinal()\<close>): 0001-01-01 is day 1 and 9999-12-31 is day 3652059. Comparison
  of dates is comparison of ordinals, and \<open>(d1 - d2).days\<close> is their difference.
  Subtracting a \<open>timedelta\<close> raises \<open>OverflowError\<close> when the result is not a date.
\<close>

type_synonym pydate = int

definition MINORDINAL :: int where
  "MINORDINAL = 1"

definition MAXORDINAL :: int where
  "MAXORDINAL = 3652059"

definition date_minus_days :: "pydate \<Rightarrow> int \<Rightarrow> error + pydate" where
  "date_minus_days d n =
     (let ord = d - n
      in if MINORDINAL \<le> ord \<and> ord \<le> MAXORDINAL then Inr ord else Inl OverflowError)"

definition days_between :: "pydate \<Rightarrow> pydate \<Rightarrow> int" where
  "days_between d1 d2 = d1 - d2"

text \<open>
  \<open>date.fromisoformat\<close> belongs to the standard library, not to the module; the
  workload functions take it as their first argument \<open>parse\<close>, a partial function from
  strings to dates (\<open>None\<close> where Python raises \<open>ValueError\<close>). The function
  \<open>fromisoformat\<close> below is its reading of the calendar form \<open>YYYY-MM-DD\<close>, used to
  run the model on concrete snapshots.
\<close>

definition digit_value :: "char \<Rightarrow> int option" where
  "digit_value c =
     (let n = (of_char c :: int) in if 48 \<le> n \<and> n \<le> 57 then Some (n - 48) else None)"

fun digits_value :: "char list \<Rightarrow> int \<Rightarrow> int option" where
  "digits_value [] acc = Some acc"
| "digits_value (c # cs) acc =
     (case digit_value c of None \<Rightarrow> None | Some k \<Rightarrow> digits_value cs (10 * acc + k))"

definition is_leap :: "int \<Rightarrow> bool" where
  "is_leap y = (y mod 4 = 0 \<and> (y mod 100 \<noteq> 0 \<or> y mod 400 = 0))"

definition days_in_month :: "int \<Rightarrow> int \<Rightarrow> int" where
  "days_in_month y m =
     (if m = 2 then (if is_leap y then 29 else 28)
      else if m = 4 \<or> m = 6 \<or> m = 9 \<or> m = 11 then 30 else 31)"

definition days_before_year :: "int \<Rightarrow> int" where
  "days_before_year y = (let p = y - 1 in p * 365 + p div 4 - p div 100 + p div 400)"

definition days_before_month :: "int \<Rightarrow> int \<Rightarrow> int" where
  "days_before_month y m = sum_list (map (days_in_month y) [1..m - 1])"

definition ymd_to_ord :: "int \<Rightarrow> int \<Rightarrow> int \<Rightarrow> pydate" where
  "ymd_to_ord y m d = days_before_year y + days_before_month y m + d"

definition fromisoformat :: "string \<Rightarrow> pydate option" where
  "fromisoformat s =
     (if length s = 10 \<and> s ! 4 = CHR ''-'' \<and> s ! 7 = CHR ''-'' then
        (case digits_value (take 4 s) 0 of None \<Rightarrow> None | Some y \<Rightarrow>
        (case digits_value (take 2 (drop 5 s)) 0 of None \<Rightarrow> None | Some m \<Rightarrow>
        (case digits_value (drop 8 s) 0 of None \<Rightarrow> None | Some d \<Rightarrow>
           if 1 \<le> y \<and> 1 \<le> m \<and> m \<le> 12 \<and> 1 \<le> d \<and> d \<le> days_in_month y m
           then Some (ymd_to_ord y m d) else None)))
      else None)"

subsection \<open>Module constants\<close>

definition ACUTE_LENGTH :: nat where
  "ACUTE_LENGTH = 9"

definition ACUTE_WEIGHTS :: "real list" where
  "ACUTE_WEIGHTS = [1.3, 1.225, 1.15, 1.075, 1.0, 0.925, 0.85, 0.775, 0.7]"

definition CHRONIC_LENGTH :: nat where
  "CHRONIC_LENGTH = 28"

subsection \<open>Records of the API\<close>

text \<open>
  The fields of a daily snapshot and of a throw event that the module reads. A \<open>null\<close>
  or absent JSON field is \<open>None\<close>, which is what \<open>event.get\<close> returns for it.
\<close>

record snapshot =
  date :: string
  dailyWorkload :: real
  normDailyWorkload :: real

record event =
  tag :: "string option"
  simulated :: "bool option"
  highEffort :: "bool option"
  workload :: real
  normalizedWorkload :: real

subsection \<open>Filter functions\<close>

text \<open>
  The \<open>tags\<close> argument is a single string or a list; a single string is wrapped into
  a one-element list. Membership \<open>in\<close> compares with \<open>==\<close>, and a list may hold
  \<open>None\<close> to select the untagged events.
\<close>

datatype tags_arg = Tag string | Tags "string option list"

definition filter_by_tag :: "event list \<Rightarrow> tags_arg \<Rightarrow> bool \<Rightarrow> event list" where
  "filter_by_tag events tags blacklist =
     (let tags' = (case tags of Tag s \<Rightarrow> [Some s] | Tags ts \<Rightarrow> ts)
      in if \<not> blacklist
         then filter (\<lambda>event. tag event \<in> set tags') events
         else filter (\<lambda>event. tag event \<notin> set tags') events)"

subsection \<open>Workload helper functions\<close>

text \<open>
  A Python \<open>dict\<close> is an association list in insertion order with distinct keys:
  storing under a key that is present replaces the value in place, storing under a new
  key appends the entry. \<open>_get_workloads_by_date\<close> is a dict comprehension, which
  stores the entries from left to right and stops at the first date that does not parse.
\<close>

type_synonym workloads = "(pydate \<times> real) list"

definition dict_get :: "workloads \<Rightarrow> pydate \<Rightarrow> real \<Rightarrow> real" where
  "dict_get w k dflt = (case map_of w k of None \<Rightarrow> dflt | Some v \<Rightarrow> v)"

definition dict_keys :: "workloads \<Rightarrow> pydate list" where
  "dict_keys w = map fst w"

definition selected_workload :: "bool \<Rightarrow> snapshot \<Rightarrow> real" where
  "selected_workload normalized s = (if normalized then normDailyWorkload s else dailyWorkload s)"

fun workloads_comprehension ::
  "(string \<Rightarrow> pydate option) \<Rightarrow> bool \<Rightarrow> snapshot list \<Rightarrow> workloads \<Rightarrow> error + workloads" where
  "workloads_comprehension parse normalized [] acc = Inr acc"
| "workloads_comprehension parse normalized (s # rest) acc =
     (case parse (date s) of
        None \<Rightarrow> Inl ValueError_isoformat
      | Some d \<Rightarrow>
          workloads_comprehension parse normalized rest
            (AList.update d (selected_workload normalized s) acc))"

definition get_workloads_by_date ::
  "(string \<Rightarrow> pydate option) \<Rightarrow> snapshot list \<Rightarrow> bool \<Rightarrow> error + workloads" where
  "get_workloads_by_date parse snapshots normalized =
     workloads_comprehension parse normalized snapshots []"

definition get_acute_divisor :: "int \<Rightarrow> int" where
  "get_acute_divisor timespan = (if timespan \<ge> 6 then int ACUTE_LENGTH else timespan + 3)"

definition get_chronic_divisor :: "int \<Rightarrow> int" where
  "get_chronic_divisor timespan = (if timespan \<ge> 23 then int CHRONIC_LENGTH else timespan + 5)"

subsection \<open>Built-ins used by the workload functions\<close>

fun py_min :: "pydate list \<Rightarrow> error + pydate" where
  "py_min [] = Inl ValueError_empty"
| "py_min (x # xs) = Inr (fold min xs x)"

fun py_max :: "pydate list \<Rightarrow> error + pydate" where
  "py_max [] = Inl ValueError_empty"
| "py_max (x # xs) = Inr (fold max xs x)"

text \<open>
  \<open>sum\<close> over a generator: the terms are produced one at a time and added to the
  running total, which starts at 0; an exception in a term ends the sum.
\<close>

fun py_sum :: "('a \<Rightarrow> error + real) \<Rightarrow> 'a list \<Rightarrow> real \<Rightarrow> error + real" where
  "py_sum f [] acc = Inr acc"
| "py_sum f (x # xs) acc =
     (case f x of Inl e \<Rightarrow> Inl e | Inr t \<Rightarrow> py_sum f xs (acc + t))"

definition py_truediv :: "real \<Rightarrow> real \<Rightarrow> error + real" where
  "py_truediv a b = (if b = 0 then Inl ZeroDivisionError else Inr (a / b))"

definition list_index :: "'a list \<Rightarrow> nat \<Rightarrow> error + 'a" where
  "list_index xs i = (if i < length xs then Inr (xs ! i) else Inl IndexError)"

subsection \<open>Workload functions\<close>

text \<open>
  An \<open>end_date\<close> that is \<open>None\<close> or the empty string is falsy: the reference date is
  then the latest key of the workload map.
\<close>

definition acute_term :: "workloads \<Rightarrow> pydate \<Rightarrow> nat \<Rightarrow> error + real" where
  "acute_term w end offset =
     (case date_minus_days end (int offset) of
        Inl e \<Rightarrow> Inl e
      | Inr d \<Rightarrow>
          (case list_index ACUTE_WEIGHTS offset of
             Inl e \<Rightarrow> Inl e
           | Inr weight \<Rightarrow> Inr (dict_get w d 0 * weight)))"

definition chronic_term :: "workloads \<Rightarrow> pydate \<Rightarrow> nat \<Rightarrow> error + real" where
  "chronic_term w end offset =
     (case date_minus_days end (int offset) of
        Inl e \<Rightarrow> Inl e
      | Inr d \<Rightarrow> Inr (dict_get w d 0))"

definition compute_acute_workload ::
  "(string \<Rightarrow> pydate option) \<Rightarrow> snapshot list \<Rightarrow> string option \<Rightarrow> bool \<Rightarrow> error + real" where
  "compute_acute_workload parse snapshots end_date normalized =
     (case get_workloads_by_date parse snapshots normalized of
        Inl e \<Rightarrow> Inl e
      | Inr w \<Rightarrow>
     (case py_min (dict_keys w) of
        Inl e \<Rightarrow> Inl e
      | Inr start \<Rightarrow>
     (case (if end_date \<noteq> None \<and> end_date \<noteq> Some []
            then (case parse (the end_date) of
                    None \<Rightarrow> Inl ValueError_isoformat | Some d \<Rightarrow> Inr d)
            else py_max (dict_keys w)) of
        Inl e \<Rightarrow> Inl e
      | Inr end \<Rightarrow>
          if start > end then Inl ValueError_range
          else
            (case py_sum (acute_term w end) [0..<ACUTE_LENGTH] 0 of
               Inl e \<Rightarrow> Inl e
             | Inr numerator \<Rightarrow>
                 py_truediv numerator (real_of_int (get_acute_divisor (days_between end start)))))))"

definition compute_chronic_workload ::
  "(string \<Rightarrow> pydate option) \<Rightarrow> snapshot list \<Rightarrow> string option \<Rightarrow> bool \<Rightarrow> error + real" where
  "compute_chronic_workload parse snapshots end_date normalized =
     (case get_workloads_by_date parse snapshots normalized of
        Inl e \<Rightarrow> Inl e
      | Inr w \<Rightarrow>
     (case py_min (dict_keys w) of
        Inl e \<Rightarrow> Inl e
      | Inr start \<Rightarrow>
     (case (if end_date \<noteq> None \<and> end_date \<noteq> Some []
            then (case parse (the end_date) of
                    None \<Rightarrow> Inl ValueError_isoformat | Some d \<Rightarrow> Inr d)
            else py_max (dict_keys w)) of
        Inl e \<Rightarrow> Inl e
      | Inr end \<Rightarrow>
          if start > end then Inl ValueError_range
          else
            (case py_sum (chronic_term w end) [0..<CHRONIC_LENGTH] 0 of
               Inl e \<Rightarrow> Inl e
             | Inr numerator \<Rightarrow>
                 py_truediv numerator (real_of_int (get_chronic_divisor (days_between end start)))))))"

definition compute_acr ::
  "(string \<Rightarrow> pydate option) \<Rightarrow> snapshot list \<Rightarrow> string option \<Rightarrow> bool \<Rightarrow> error + real" where
  "compute_acr parse snapshots end_date normalized =
     (case compute_chronic_workload parse snapshots end_date normalized of
        Inl e \<Rightarrow> Inl e
      | Inr chronic_workload \<Rightarrow>
          if chronic_workload = 0 then Inr 0
          else
            (case compute_acute_workload parse snapshots end_date normalized of
               Inl e \<Rightarrow> Inl e
             | Inr acute_workload \<Rightarrow> py_truediv acute_workload chronic_workload))"

subsection \<open>Earliest date and reference date of a workload map\<close>

text \<open>
  The two dates the specification names \<open>start\<close> and \<open>end\<close>: the earliest key of the
  workload map, and the reference date, which is the parsed \<open>end_date\<close> argument or,
  when none is supplied, the latest key of the map.
\<close>

definition earliest_date :: "workloads \<Rightarrow> pydate" where
  "earliest_date w = Min (set (dict_keys w))"

definition reference_date ::
  "(string \<Rightarrow> pydate option) \<Rightarrow> workloads \<Rightarrow> string option \<Rightarrow> pydate \<Rightarrow> bool" where
  "reference_date parse w end_date end =
     (if end_date = None \<or> end_date = Some [] then end = Max (set (dict_keys w))
      else parse (the end_date) = Some end)"

section \<open>Auxiliary lemmas\<close>

subsection \<open>Built-ins and the dict comprehension\<close>

lemma py_min_nonempty: "xs \<noteq> [] \<Longrightarrow> py_min xs = Inr (Min (set xs))"
  using Min.set_eq_fold [of "hd xs" "tl xs"] by (cases xs) simp_all

lemma py_max_nonempty: "xs \<noteq> [] \<Longrightarrow> py_max xs = Inr (Max (set xs))"
  using Max.set_eq_fold [of "hd xs" "tl xs"] by (cases xs) simp_all

lemma comprehension_append:
  "workloads_comprehension parse n (xs @ ys) acc =
     (case workloads_comprehension parse n xs acc of
        Inl e \<Rightarrow> Inl e
      | Inr a \<Rightarrow> workloads_comprehension parse n ys a)"
  by (induction xs arbitrary: acc) (simp_all split: option.splits)

lemma comprehension_total:
  "\<forall>s \<in> set snaps. parse (date s) \<noteq> None \<Longrightarrow>
   \<exists>w. workloads_comprehension parse n snaps acc = Inr w"
  by (induction snaps arbitrary: acc) auto

lemma comprehension_keys:
  "workloads_comprehension parse n snaps acc = Inr w \<Longrightarrow>
   set (map fst w) = set (map fst acc) \<union> (\<lambda>s. the (parse (date s))) ` set snaps"
proof (induction snaps arbitrary: acc)
  case Nil
  then show ?case by simp
next
  case (Cons s rest)
  then obtain d where d: "parse (date s) = Some d"
    by (cases "parse (date s)") simp_all
  let ?acc' = "AList.update d (selected_workload n s) acc"
  from Cons.prems d have "workloads_comprehension parse n rest ?acc' = Inr w"
    by simp
  from Cons.IH [OF this] have "set (map fst w) = set (map fst ?acc') \<union> (\<lambda>s. the (parse (date s))) ` set rest" .
  moreover have "set (map fst ?acc') = insert d (set (map fst acc))"
    using AList.dom_update [of d _ acc] by simp
  ultimately show ?case using d by auto
qed

lemma comprehension_distinct:
  "workloads_comprehension parse n snaps acc = Inr w \<Longrightarrow> distinct (map fst acc) \<Longrightarrow>
   distinct (map fst w)"
  by (induction snaps arbitrary: acc) (auto split: option.splits simp: AList.distinct_update)

lemma comprehension_untouched:
  "workloads_comprehension parse n snaps acc = Inr w \<Longrightarrow>
   \<forall>t \<in> set snaps. parse (date t) \<noteq> Some d \<Longrightarrow> map_of w d = map_of acc d"
  by (induction snaps arbitrary: acc) (auto split: option.splits simp: AList.update_conv')

lemma comprehension_nonempty:
  "workloads_comprehension parse n snaps acc = Inr w \<Longrightarrow> snaps \<noteq> [] \<or> acc \<noteq> [] \<Longrightarrow> w \<noteq> []"
proof (induction snaps arbitrary: acc)
  case Nil
  then show ?case by simp
next
  case (Cons s rest)
  then obtain d where d: "parse (date s) = Some d"
    by (cases "parse (date s)") simp_all
  let ?acc' = "AList.update d (selected_workload n s) acc"
  have "?acc' \<noteq> []" by (cases acc) auto
  moreover from Cons.prems d have "workloads_comprehension parse n rest ?acc' = Inr w"
    by simp
  ultimately show ?case using Cons.IH by blast
qed

lemma py_sum_ok:
  "\<forall>x \<in> set xs. f x = Inr (g x) \<Longrightarrow> py_sum f xs acc = Inr (acc + sum_list (map g xs))"
  by (induction xs arbitrary: acc) (simp_all add: add.assoc)

lemma py_sum_terms:
  "py_sum f xs acc = Inr r \<Longrightarrow> x \<in> set xs \<Longrightarrow> \<exists>t. f x = Inr t"
  by (induction xs arbitrary: acc) (auto split: sum.splits)

lemma py_sum_error:
  "py_sum f xs acc = Inl e \<Longrightarrow> \<exists>x \<in> set xs. f x = Inl e"
  by (induction xs arbitrary: acc) (auto split: sum.splits)

subsection \<open>The workload functions unfolded\<close>

lemma workloads_nonempty:
  "get_workloads_by_date parse snapshots normalized = Inr w \<Longrightarrow> snapshots \<noteq> [] \<Longrightarrow> w \<noteq> []"
  unfolding get_workloads_by_date_def using comprehension_nonempty by blast

lemma resolve_end:
  assumes "w \<noteq> []" and "reference_date parse w end_date end"
  shows "(if end_date \<noteq> None \<and> end_date \<noteq> Some []
          then (case parse (the end_date) of
                  None \<Rightarrow> Inl ValueError_isoformat | Some d \<Rightarrow> Inr d)
          else py_max (dict_keys w)) = Inr end"
proof (cases "end_date = None \<or> end_date = Some []")
  case True
  from assms(1) have "dict_keys w \<noteq> []" by (simp add: dict_keys_def)
  then have "py_max (dict_keys w) = Inr (Max (set (dict_keys w)))" by (rule py_max_nonempty)
  with True assms(2) show ?thesis by (auto simp: reference_date_def)
next
  case False
  with assms(2) have "parse (the end_date) = Some end" by (simp add: reference_date_def)
  with False show ?thesis by simp
qed

lemma acute_unfold:
  assumes "get_workloads_by_date parse snapshots normalized = Inr w"
    and "snapshots \<noteq> []"
    and "reference_date parse w end_date end"
  shows "compute_acute_workload parse snapshots end_date normalized =
     (if earliest_date w > end then Inl ValueError_range
      else (case py_sum (acute_term w end) [0..<ACUTE_LENGTH] 0 of
              Inl e \<Rightarrow> Inl e
            | Inr numerator \<Rightarrow>
                py_truediv numerator (real_of_int (get_acute_divisor (end - earliest_date w)))))"
proof -
  have ne: "w \<noteq> []" using assms(1,2) by (rule workloads_nonempty)
  then have "dict_keys w \<noteq> []" by (simp add: dict_keys_def)
  then have m: "py_min (dict_keys w) = Inr (earliest_date w)"
    unfolding earliest_date_def by (rule py_min_nonempty)
  note r = resolve_end [OF ne assms(3)]
  show ?thesis
    unfolding compute_acute_workload_def by (simp only: assms(1) m r sum.case days_between_def)
qed

lemma chronic_unfold:
  assumes "get_workloads_by_date parse snapshots normalized = Inr w"
    and "snapshots \<noteq> []"
    and "reference_date parse w end_date end"
  shows "compute_chronic_workload parse snapshots end_date normalized =
     (if earliest_date w > end then Inl ValueError_range
      else (case py_sum (chronic_term w end) [0..<CHRONIC_LENGTH] 0 of
              Inl e \<Rightarrow> Inl e
            | Inr numerator \<Rightarrow>
                py_truediv numerator (real_of_int (get_chronic_divisor (end - earliest_date w)))))"
proof -
  have ne: "w \<noteq> []" using assms(1,2) by (rule workloads_nonempty)
  then have "dict_keys w \<noteq> []" by (simp add: dict_keys_def)
  then have m: "py_min (dict_keys w) = Inr (earliest_date w)"
    unfolding earliest_date_def by (rule py_min_nonempty)
  note r = resolve_end [OF ne assms(3)]
  show ?thesis
    unfolding compute_chronic_workload_def by (simp only: assms(1) m r sum.case days_between_def)
qed

lemma date_minus_days_ok:
  "MINORDINAL \<le> d - n \<Longrightarrow> d - n \<le> MAXORDINAL \<Longrightarrow> date_minus_days d n = Inr (d - n)"
  by (simp add: date_minus_days_def)

lemma date_minus_days_overflow:
  "d - n < MINORDINAL \<Longrightarrow> date_minus_days d n = Inl OverflowError"
  by (simp add: date_minus_days_def)

lemma date_minus_days_cases:
  "date_minus_days d n = Inr (d - n) \<or> date_minus_days d n = Inl OverflowError"
  by (simp add: date_minus_days_def Let_def)

lemma length_ACUTE_WEIGHTS: "length ACUTE_WEIGHTS = 9"
  by (simp add: ACUTE_WEIGHTS_def)

lemma acute_term_ok:
  assumes "MINORDINAL + 8 \<le> end" and "end \<le> MAXORDINAL" and "offset < 9"
  shows "acute_term w end offset = Inr (dict_get w (end - int offset) 0 * ACUTE_WEIGHTS ! offset)"
proof -
  have "date_minus_days end (int offset) = Inr (end - int offset)"
    using assms by (intro date_minus_days_ok) simp_all
  moreover have "list_index ACUTE_WEIGHTS offset = Inr (ACUTE_WEIGHTS ! offset)"
    using assms(3) by (simp add: list_index_def length_ACUTE_WEIGHTS)
  ultimately show ?thesis by (simp add: acute_term_def)
qed

lemma chronic_term_ok:
  assumes "MINORDINAL + 27 \<le> end" and "end \<le> MAXORDINAL" and "offset < 28"
  shows "chronic_term w end offset = Inr (dict_get w (end - int offset) 0)"
proof -
  have "date_minus_days end (int offset) = Inr (end - int offset)"
    using assms by (intro date_minus_days_ok) simp_all
  then show ?thesis by (simp add: chronic_term_def)
qed

lemma acute_sum_ok:
  assumes "MINORDINAL + 8 \<le> end" and "end \<le> MAXORDINAL"
  shows "py_sum (acute_term w end) [0..<ACUTE_LENGTH] 0 =
         Inr (\<Sum>offset\<leftarrow>[0..<9]. dict_get w (end - int offset) 0 * ACUTE_WEIGHTS ! offset)"
proof -
  have "\<forall>offset \<in> set [0..<9].
          acute_term w end offset = Inr (dict_get w (end - int offset) 0 * ACUTE_WEIGHTS ! offset)"
    using acute_term_ok [OF assms] by simp
  from py_sum_ok [OF this, of 0] show ?thesis by (simp add: ACUTE_LENGTH_def)
qed

lemma chronic_sum_ok:
  assumes "MINORDINAL + 27 \<le> end" and "end \<le> MAXORDINAL"
  shows "py_sum (chronic_term w end) [0..<CHRONIC_LENGTH] 0 =
         Inr (\<Sum>offset\<leftarrow>[0..<28]. dict_get w (end - int offset) 0)"
proof -
  have "\<forall>offset \<in> set [0..<28]. chronic_term w end offset = Inr (dict_get w (end - int offset) 0)"
    using chronic_term_ok [OF assms] by simp
  from py_sum_ok [OF this, of 0] show ?thesis by (simp add: CHRONIC_LENGTH_def)
qed

lemma acute_term_errors: "acute_term w end offset = Inl e \<Longrightarrow> offset < 9 \<Longrightarrow> e = OverflowError"
  using date_minus_days_cases [of "end" "int offset"]
  by (auto simp: acute_term_def list_index_def length_ACUTE_WEIGHTS split: sum.splits)

lemma chronic_term_errors: "chronic_term w end offset = Inl e \<Longrightarrow> e = OverflowError"
  using date_minus_days_cases [of "end" "int offset"]
  by (auto simp: chronic_term_def split: sum.splits)

lemma acute_sum_overflow:
  assumes "end < MINORDINAL + 8"
  shows "py_sum (acute_term w end) [0..<ACUTE_LENGTH] 0 = Inl OverflowError"
proof (cases "py_sum (acute_term w end) [0..<ACUTE_LENGTH] 0")
  case (Inl e)
  from py_sum_error [OF this] obtain offset
    where "offset < 9" and "acute_term w end offset = Inl e"
    by (auto simp: ACUTE_LENGTH_def)
  then have "e = OverflowError" using acute_term_errors by blast
  with Inl show ?thesis by simp
next
  case (Inr r)
  have "(8::nat) \<in> set [0..<ACUTE_LENGTH]" by (simp add: ACUTE_LENGTH_def)
  from py_sum_terms [OF Inr this] obtain t where "acute_term w end 8 = Inr t" ..
  moreover have "date_minus_days end (int 8) = Inl OverflowError"
    using assms by (intro date_minus_days_overflow) simp
  ultimately show ?thesis by (simp add: acute_term_def)
qed

lemma chronic_sum_overflow:
  assumes "end < MINORDINAL + 27"
  shows "py_sum (chronic_term w end) [0..<CHRONIC_LENGTH] 0 = Inl OverflowError"
proof (cases "py_sum (chronic_term w end) [0..<CHRONIC_LENGTH] 0")
  case (Inl e)
  from py_sum_error [OF this] obtain offset where "chronic_term w end offset = Inl e"
    by auto
  then have "e = OverflowError" using chronic_term_errors by blast
  with Inl show ?thesis by simp
next
  case (Inr r)
  have "(27::nat) \<in> set [0..<CHRONIC_LENGTH]" by (simp add: CHRONIC_LENGTH_def)
  from py_sum_terms [OF Inr this] obtain t where "chronic_term w end 27 = Inr t" ..
  moreover have "date_minus_days end (int 27) = Inl OverflowError"
    using assms by (intro date_minus_days_overflow) simp
  ultimately show ?thesis by (simp add: chronic_term_def)
qed

lemma acute_divisor_lower: "0 \<le> s \<Longrightarrow> 3 \<le> get_acute_divisor s"
  by (simp add: get_acute_divisor_def ACUTE_LENGTH_def)

lemma chronic_divisor_lower: "0 \<le> s \<Longrightarrow> 5 \<le> get_chronic_divisor s"
  by (simp add: get_chronic_divisor_def CHRONIC_LENGTH_def)

lemma truediv_acute_divisor:
  "0 \<le> s \<Longrightarrow> py_truediv x (real_of_int (get_acute_divisor s)) = Inr (x / real_of_int (get_acute_divisor s))"
  using acute_divisor_lower [of s] by (simp add: py_truediv_def)

lemma truediv_chronic_divisor:
  "0 \<le> s \<Longrightarrow> py_truediv x (real_of_int (get_chronic_divisor s)) = Inr (x / real_of_int (get_chronic_divisor s))"
  using chronic_divisor_lower [of s] by (simp add: py_truediv_def)

lemma acr_of_results:
  assumes "compute_chronic_workload parse snapshots end_date normalized = Inr c"
    and "compute_acute_workload parse snapshots end_date normalized = Inr a"
  shows "compute_acr parse snapshots end_date normalized = Inr (if c = 0 then 0 else a / c)"
  using assms by (simp add: compute_acr_def py_truediv_def)

lemma acr_of_chronic_error:
  "compute_chronic_workload parse snapshots end_date normalized = Inl e \<Longrightarrow>
   compute_acr parse snapshots end_date normalized = Inl e"
  by (simp add: compute_acr_def)

lemma acute_result:
  assumes "get_workloads_by_date parse snapshots normalized = Inr w"
    and "snapshots \<noteq> []"
    and "reference_date parse w end_date end"
    and "end \<le> MAXORDINAL"
  shows "compute_acute_workload parse snapshots end_date normalized =
     (if earliest_date w > end then Inl ValueError_range
      else if end < MINORDINAL + 8 then Inl OverflowError
      else Inr ((\<Sum>offset\<leftarrow>[0..<9]. dict_get w (end - int offset) 0 * ACUTE_WEIGHTS ! offset) /
                real_of_int (get_acute_divisor (end - earliest_date w))))"
proof -
  note u = acute_unfold [OF assms(1,2,3)]
  consider "earliest_date w > end"
    | "earliest_date w \<le> end" "end < MINORDINAL + 8"
    | "earliest_date w \<le> end" "MINORDINAL + 8 \<le> end"
    by linarith
  then show ?thesis
  proof cases
    case 1
    then show ?thesis by (simp add: u)
  next
    case 2
    then show ?thesis by (simp add: u acute_sum_overflow)
  next
    case 3
    then have "0 \<le> end - earliest_date w" by simp
    from truediv_acute_divisor [OF this] 3 show ?thesis
      by (simp add: u acute_sum_ok [OF 3(2) assms(4)])
  qed
qed

lemma chronic_result:
  assumes "get_workloads_by_date parse snapshots normalized = Inr w"
    and "snapshots \<noteq> []"
    and "reference_date parse w end_date end"
    and "end \<le> MAXORDINAL"
  shows "compute_chronic_workload parse snapshots end_date normalized =
     (if earliest_date w > end then Inl ValueError_range
      else if end < MINORDINAL + 27 then Inl OverflowError
      else Inr ((\<Sum>offset\<leftarrow>[0..<28]. dict_get w (end - int offset) 0) /
                real_of_int (get_chronic_divisor (end - earliest_date w))))"
proof -
  note u = chronic_unfold [OF assms(1,2,3)]
  consider "earliest_date w > end"
    | "earliest_date w \<le> end" "end < MINORDINAL + 27"
    | "earliest_date w \<le> end" "MINORDINAL + 27 \<le> end"
    by linarith
  then show ?thesis
  proof cases
    case 1
    then show ?thesis by (simp add: u)
  next
    case 2
    then show ?thesis by (simp add: u chronic_sum_overflow)
  next
    case 3
    then have "0 \<le> end - earliest_date w" by simp
    from truediv_chronic_divisor [OF this] 3 show ?thesis
      by (simp add: u chronic_sum_ok [OF 3(2) assms(4)])
  qed
qed


lemma chronic_term_date:
  assumes "chronic_term w end offset = Inr t"
  shows "date_minus_days end (int offset) = Inr (end - int offset)"
  using assms date_minus_days_cases [of "end" "int offset"]
  by (auto simp: chronic_term_def split: sum.splits)

lemma acute_after_chronic:
  assumes "compute_chronic_workload parse snapshots end_date normalized = Inr c"
  shows "\<exists>a. compute_acute_workload parse snapshots end_date normalized = Inr a"
proof -
  let ?resolve = "if end_date \<noteq> None \<and> end_date \<noteq> Some []
          then (case parse (the end_date) of
                  None \<Rightarrow> Inl ValueError_isoformat | Some d \<Rightarrow> Inr d)
          else py_max (dict_keys w)"
  from assms obtain w where w: "get_workloads_by_date parse snapshots normalized = Inr w"
    unfolding compute_chronic_workload_def
    by (cases "get_workloads_by_date parse snapshots normalized") simp_all
  from assms w obtain start where start: "py_min (dict_keys w) = Inr start"
    unfolding compute_chronic_workload_def
    by (cases "py_min (dict_keys w)") simp_all
  let ?resolve = "if end_date \<noteq> None \<and> end_date \<noteq> Some []
          then (case parse (the end_date) of
                  None \<Rightarrow> Inl ValueError_isoformat | Some d \<Rightarrow> Inr d)
          else py_max (dict_keys w)"
  from assms w start obtain "end" where e: "?resolve = Inr end"
    unfolding compute_chronic_workload_def
    by (cases ?resolve) (simp_all only: sum.case sum.distinct)
  from assms have rest: "(if start > end then Inl ValueError_range
          else (case py_sum (chronic_term w end) [0..<CHRONIC_LENGTH] 0 of
               Inl e \<Rightarrow> Inl e
             | Inr numerator \<Rightarrow>
                 py_truediv numerator (real_of_int (get_chronic_divisor (days_between end start))))) = Inr c"
    unfolding compute_chronic_workload_def by (simp only: w start e sum.case)
  then have le: "start \<le> end"
    by (cases "start > end") simp_all
  with rest obtain numerator where n: "py_sum (chronic_term w end) [0..<CHRONIC_LENGTH] 0 = Inr numerator"
    by (cases "py_sum (chronic_term w end) [0..<CHRONIC_LENGTH] 0") simp_all
  have terms: "\<forall>offset \<in> set [0..<9].
     acute_term w end offset = Inr (dict_get w (end - int offset) 0 * ACUTE_WEIGHTS ! offset)"
  proof
    fix offset assume "offset \<in> set [0..<9]"
    then have o: "offset < 9" by simp
    then have "offset \<in> set [0..<CHRONIC_LENGTH]" by (simp add: CHRONIC_LENGTH_def)
    from py_sum_terms [OF n this] obtain t where "chronic_term w end offset = Inr t" ..
    then have "date_minus_days end (int offset) = Inr (end - int offset)"
      by (rule chronic_term_date)
    moreover have "list_index ACUTE_WEIGHTS offset = Inr (ACUTE_WEIGHTS ! offset)"
      using o by (simp add: list_index_def length_ACUTE_WEIGHTS)
    ultimately show "acute_term w end offset =
        Inr (dict_get w (end - int offset) 0 * ACUTE_WEIGHTS ! offset)"
      by (simp add: acute_term_def)
  qed
  from py_sum_ok [OF terms, of 0]
  have s: "py_sum (acute_term w end) [0..<ACUTE_LENGTH] 0 =
      Inr (0 + (\<Sum>offset\<leftarrow>[0..<9]. dict_get w (end - int offset) 0 * ACUTE_WEIGHTS ! offset))"
    by (simp only: ACUTE_LENGTH_def)
  from le have "0 \<le> days_between end start" by (simp add: days_between_def)
  note d = truediv_acute_divisor [OF this]
  have "compute_acute_workload parse snapshots end_date normalized =
      Inr ((0 + (\<Sum>offset\<leftarrow>[0..<9]. dict_get w (end - int offset) 0 * ACUTE_WEIGHTS ! offset)) /
           real_of_int (get_acute_divisor (days_between end start)))"
    unfolding compute_acute_workload_def using le
    by (simp only: w start e s d sum.case not_less [symmetric] if_False)
  then show ?thesis ..
qed

lemma dict_get_absent:
  assumes "k \<notin> set (dict_keys w)"
  shows "dict_get w k dflt = dflt"
proof -
  from assms have "map_of w k = None"
    by (simp add: dict_keys_def map_of_eq_None_iff)
  then show ?thesis by (simp add: dict_get_def)
qed

lemma earliest_date_key: "w \<noteq> [] \<Longrightarrow> earliest_date w \<in> set (dict_keys w)"
  unfolding earliest_date_def by (rule Min_in) (simp_all add: dict_keys_def)

lemma comprehension_last_wins:
  assumes "workloads_comprehension parse n (pre @ s # post) acc = Inr w"
    and "\<forall>t \<in> set post. parse (date t) \<noteq> parse (date s)"
  shows "map_of w (the (parse (date s))) = Some (selected_workload n s)"
proof -
  from assms(1) obtain a where a: "workloads_comprehension parse n pre acc = Inr a"
    and rest: "workloads_comprehension parse n (s # post) a = Inr w"
    by (cases "workloads_comprehension parse n pre acc") (simp_all add: comprehension_append)
  from rest obtain d where d: "parse (date s) = Some d"
    by (cases "parse (date s)") simp_all
  with rest have post: "workloads_comprehension parse n post
      (AList.update d (selected_workload n s) a) = Inr w"
    by simp
  from assms(2) d have "\<forall>t \<in> set post. parse (date t) \<noteq> Some d" by simp
  from comprehension_untouched [OF post this]
  have "map_of w d = Some (selected_workload n s)"
    by (simp add: AList.update_conv')
  with d show ?thesis by simp
qed

section \<open>Divisor policy\<close>

text \<open>
  Claim C3. For every non-negative timespan \<open>s\<close>, the acute divisor is \<open>s + 3\<close> when
  \<open>s < 6\<close> and 9 when \<open>s \<ge> 6\<close>, and the chronic divisor is \<open>s + 5\<close> when \<open>s < 23\<close>
  and 28 when \<open>s \<ge> 23\<close>.
\<close>

theorem divisor_policy:
  assumes "0 \<le> s"
  shows "(s < 6 \<longrightarrow> get_acute_divisor s = s + 3) \<and> (s \<ge> 6 \<longrightarrow> get_acute_divisor s = 9) \<and>
         (s < 23 \<longrightarrow> get_chronic_divisor s = s + 5) \<and> (s \<ge> 23 \<longrightarrow> get_chronic_divisor s = 28)"
  by (simp add: get_acute_divisor_def get_chronic_divisor_def ACUTE_LENGTH_def CHRONIC_LENGTH_def)

theorem divisor_policy_witness:
  "(0::int) \<le> 4 \<and> get_acute_divisor 4 = 7 \<and> get_chronic_divisor 4 = 9 \<and>
   get_acute_divisor 30 = 9 \<and> get_chronic_divisor 30 = 28"
  using divisor_policy [of 4] divisor_policy [of 30] by simp

section \<open>Windowed sums\<close>

text \<open>
  Claim C1, as amended. For a non-empty snapshot list whose dates parse, with \<open>w\<close> the
  workload map, \<open>start\<close> its earliest key and \<open>end\<close> the reference date, if
  \<open>start \<le> end\<close> then \<open>compute_acute_workload\<close> returns the weighted sum over the
  offsets 0 to 8 divided by the acute divisor of \<open>(end - start).days\<close>, provided
  \<open>end\<close> minus 8 days is still a date (no earlier than 0001-01-01); and
  \<open>compute_chronic_workload\<close> returns the flat sum over the offsets 0 to 27 divided by
  the chronic divisor, provided \<open>end\<close> minus 27 days is still a date.
\<close>

theorem workload_formula:
  assumes "snapshots \<noteq> []"
    and "get_workloads_by_date parse snapshots normalized = Inr w"
    and "reference_date parse w end_date end"
    and "earliest_date w \<le> end"
    and "end \<le> MAXORDINAL"
  shows "(MINORDINAL + 8 \<le> end \<longrightarrow>
            compute_acute_workload parse snapshots end_date normalized =
              Inr ((\<Sum>offset\<leftarrow>[0..<9]. dict_get w (end - int offset) 0 *
                      [1.3, 1.225, 1.15, 1.075, 1.0, 0.925, 0.85, 0.775, 0.7] ! offset) /
                   real_of_int (get_acute_divisor (end - earliest_date w)))) \<and>
         (MINORDINAL + 27 \<le> end \<longrightarrow>
            compute_chronic_workload parse snapshots end_date normalized =
              Inr ((\<Sum>offset\<leftarrow>[0..<28]. dict_get w (end - int offset) 0) /
                   real_of_int (get_chronic_divisor (end - earliest_date w))))"
  using acute_result [OF assms(2,1,3,5)] chronic_result [OF assms(2,1,3,5)] assms(4)
  by (simp add: ACUTE_WEIGHTS_def)

theorem workload_formula_witness:
  "compute_acute_workload fromisoformat
     [\<lparr>date = ''2022-04-01'', dailyWorkload = 10, normDailyWorkload = 1\<rparr>,
      \<lparr>date = ''2022-04-03'', dailyWorkload = 20, normDailyWorkload = 2\<rparr>] None True = Inr (3 / 4) \<and>
   compute_chronic_workload fromisoformat
     [\<lparr>date = ''2022-04-01'', dailyWorkload = 10, normDailyWorkload = 1\<rparr>,
      \<lparr>date = ''2022-04-03'', dailyWorkload = 20, normDailyWorkload = 2\<rparr>] None True = Inr (3 / 7)"
proof -
  let ?snaps = "[\<lparr>date = ''2022-04-01'', dailyWorkload = 10, normDailyWorkload = 1\<rparr>,
      \<lparr>date = ''2022-04-03'', dailyWorkload = 20, normDailyWorkload = 2\<rparr>]"
  let ?w = "[(738246, 1), (738248, 2)] :: workloads"
  have h1: "?snaps \<noteq> []" by simp
  have h2: "get_workloads_by_date fromisoformat ?snaps True = Inr ?w" by code_simp
  have h3: "reference_date fromisoformat ?w None 738248" by code_simp
  have h4: "earliest_date ?w \<le> 738248" by code_simp
  have h5: "(738248 :: int) \<le> MAXORDINAL" by code_simp
  have h6: "MINORDINAL + 8 \<le> (738248 :: int)" by code_simp
  have h7: "MINORDINAL + 27 \<le> (738248 :: int)" by code_simp
  have v1: "(\<Sum>offset\<leftarrow>[0..<9]. dict_get ?w (738248 - int offset) 0 *
                      [1.3, 1.225, 1.15, 1.075, 1.0, 0.925, 0.85, 0.775, 0.7] ! offset) /
                   real_of_int (get_acute_divisor (738248 - earliest_date ?w)) = 3 / 4"
    by code_simp
  have v2: "(\<Sum>offset\<leftarrow>[0..<28]. dict_get ?w (738248 - int offset) 0) /
                   real_of_int (get_chronic_divisor (738248 - earliest_date ?w)) = 3 / 7"
    by code_simp
  from workload_formula [OF h1 h2 h3 h4 h5] h6 h7 show ?thesis
    by (simp only: v1 v2)
qed

theorem workload_formula_counterexample:
  "get_workloads_by_date fromisoformat
     [\<lparr>date = ''0001-01-01'', dailyWorkload = 10, normDailyWorkload = 1\<rparr>] True = Inr [(1, 1)] \<and>
   fromisoformat ''0001-01-03'' = Some 3 \<and>
   earliest_date [(1, 1)] \<le> 3 \<and>
   compute_acute_workload fromisoformat
     [\<lparr>date = ''0001-01-01'', dailyWorkload = 10, normDailyWorkload = 1\<rparr>]
     (Some ''0001-01-03'') True = Inl OverflowError \<and>
   compute_chronic_workload fromisoformat
     [\<lparr>date = ''0001-01-01'', dailyWorkload = 10, normDailyWorkload = 1\<rparr>]
     (Some ''0001-01-03'') True = Inl OverflowError"
  by code_simp

section \<open>Range errors\<close>

text \<open>
  Claim C2, as amended. For a non-empty snapshot list whose dates parse and a reference
  date \<open>end\<close> (supplied and valid, or the latest snapshot date), each of
  \<open>compute_acute_workload\<close>, \<open>compute_chronic_workload\<close> and \<open>compute_acr\<close>
  raises a \<open>ValueError\<close> if and only if the earliest snapshot date is strictly after
  \<open>end\<close>, and the error is then the range error. In the other case the function returns
  a float when \<open>end\<close> minus 8 days (acute) or minus 27 days (chronic and ratio) is still
  a date, and raises \<open>OverflowError\<close> when it is not.
\<close>

theorem range_error_iff:
  assumes "snapshots \<noteq> []"
    and "get_workloads_by_date parse snapshots normalized = Inr w"
    and "reference_date parse w end_date end"
    and "end \<le> MAXORDINAL"
  shows "((\<exists>e. compute_acute_workload parse snapshots end_date normalized = Inl e \<and> is_ValueError e)
            \<longleftrightarrow> earliest_date w > end) \<and>
         ((\<exists>e. compute_chronic_workload parse snapshots end_date normalized = Inl e \<and> is_ValueError e)
            \<longleftrightarrow> earliest_date w > end) \<and>
         ((\<exists>e. compute_acr parse snapshots end_date normalized = Inl e \<and> is_ValueError e)
            \<longleftrightarrow> earliest_date w > end) \<and>
         (earliest_date w > end \<longrightarrow>
            compute_acute_workload parse snapshots end_date normalized = Inl ValueError_range \<and>
            compute_chronic_workload parse snapshots end_date normalized = Inl ValueError_range \<and>
            compute_acr parse snapshots end_date normalized = Inl ValueError_range) \<and>
         (earliest_date w \<le> end \<longrightarrow>
            (if MINORDINAL + 8 \<le> end
             then \<exists>x. compute_acute_workload parse snapshots end_date normalized = Inr x
             else compute_acute_workload parse snapshots end_date normalized = Inl OverflowError) \<and>
            (if MINORDINAL + 27 \<le> end
             then (\<exists>x. compute_chronic_workload parse snapshots end_date normalized = Inr x) \<and>
                  (\<exists>x. compute_acr parse snapshots end_date normalized = Inr x)
             else compute_chronic_workload parse snapshots end_date normalized = Inl OverflowError \<and>
                  compute_acr parse snapshots end_date normalized = Inl OverflowError))"
proof -
  let ?acute = "compute_acute_workload parse snapshots end_date normalized"
  let ?chronic = "compute_chronic_workload parse snapshots end_date normalized"
  let ?acr = "compute_acr parse snapshots end_date normalized"
  note a = acute_result [OF assms(2,1,3,4)]
  note c = chronic_result [OF assms(2,1,3,4)]
  have early: "?acute = Inl ValueError_range \<and> ?chronic = Inl ValueError_range \<and>
               ?acr = Inl ValueError_range" if "end < earliest_date w"
  proof -
    from that have "?acute = Inl ValueError_range" and cr: "?chronic = Inl ValueError_range"
      by (simp_all add: a c)
    with acr_of_chronic_error [OF cr] show ?thesis by simp
  qed
  have acute_late: "if MINORDINAL + 8 \<le> end then \<exists>x. ?acute = Inr x
                    else ?acute = Inl OverflowError" if "earliest_date w \<le> end"
    using that by (simp add: a)
  have chronic_late: "if MINORDINAL + 27 \<le> end then (\<exists>x. ?chronic = Inr x) \<and> (\<exists>x. ?acr = Inr x)
                      else ?chronic = Inl OverflowError \<and> ?acr = Inl OverflowError"
    if le: "earliest_date w \<le> end"
  proof (cases "MINORDINAL + 27 \<le> end")
    case True
    with le obtain y where y: "?chronic = Inr y"
      by (simp add: c)
    from True le obtain x where x: "?acute = Inr x"
      by (simp add: a)
    from acr_of_results [OF y x] y True show ?thesis by simp
  next
    case False
    with le have "?chronic = Inl OverflowError"
      by (simp add: c)
    with acr_of_chronic_error [OF this] False show ?thesis by simp
  qed
  have no_value_error: "\<not> is_ValueError e"
    if "earliest_date w \<le> end" and "?acute = Inl e \<or> ?chronic = Inl e \<or> ?acr = Inl e" for e
  proof -
    from acute_late [OF that(1)] chronic_late [OF that(1)] that(2) have "e = OverflowError"
      by (auto split: if_splits)
    then show ?thesis by simp
  qed
  have "(\<exists>e. ?acute = Inl e \<and> is_ValueError e) \<longleftrightarrow> earliest_date w > end"
    using early no_value_error by (cases "end < earliest_date w") auto
  moreover have "(\<exists>e. ?chronic = Inl e \<and> is_ValueError e) \<longleftrightarrow> earliest_date w > end"
    using early no_value_error by (cases "end < earliest_date w") auto
  moreover have "(\<exists>e. ?acr = Inl e \<and> is_ValueError e) \<longleftrightarrow> earliest_date w > end"
    using early no_value_error by (cases "end < earliest_date w") auto
  ultimately show ?thesis using early acute_late chronic_late by blast
qed

theorem range_error_iff_witness:
  "compute_acute_workload fromisoformat
     [\<lparr>date = ''2022-04-01'', dailyWorkload = 10, normDailyWorkload = 1\<rparr>,
      \<lparr>date = ''2022-04-03'', dailyWorkload = 20, normDailyWorkload = 2\<rparr>]
     (Some ''2022-03-31'') False = Inl ValueError_range \<and>
   compute_chronic_workload fromisoformat
     [\<lparr>date = ''2022-04-01'', dailyWorkload = 10, normDailyWorkload = 1\<rparr>,
      \<lparr>date = ''2022-04-03'', dailyWorkload = 20, normDailyWorkload = 2\<rparr>]
     (Some ''2022-03-31'') False = Inl ValueError_range \<and>
   compute_acr fromisoformat
     [\<lparr>date = ''2022-04-01'', dailyWorkload = 10, normDailyWorkload = 1\<rparr>,
      \<lparr>date = ''2022-04-03'', dailyWorkload = 20, normDailyWorkload = 2\<rparr>]
     (Some ''2022-03-31'') False = Inl ValueError_range \<and>
   (\<exists>x. compute_acute_workload fromisoformat
     [\<lparr>date = ''2022-04-01'', dailyWorkload = 10, normDailyWorkload = 1\<rparr>,
      \<lparr>date = ''2022-04-03'', dailyWorkload = 20, normDailyWorkload = 2\<rparr>]
     (Some ''2022-04-02'') False = Inr x) \<and>
   (\<exists>x. compute_chronic_workload fromisoformat
     [\<lparr>date = ''2022-04-01'', dailyWorkload = 10, normDailyWorkload = 1\<rparr>,
      \<lparr>date = ''2022-04-03'', dailyWorkload = 20, normDailyWorkload = 2\<rparr>]
     (Some ''2022-04-02'') False = Inr x) \<and>
   (\<exists>x. compute_acr fromisoformat
     [\<lparr>date = ''2022-04-01'', dailyWorkload = 10, normDailyWorkload = 1\<rparr>,
      \<lparr>date = ''2022-04-03'', dailyWorkload = 20, normDailyWorkload = 2\<rparr>]
     (Some ''2022-04-02'') False = Inr x)"
proof -
  let ?snaps = "[\<lparr>date = ''2022-04-01'', dailyWorkload = 10, normDailyWorkload = 1\<rparr>,
      \<lparr>date = ''2022-04-03'', dailyWorkload = 20, normDailyWorkload = 2\<rparr>]"
  let ?w = "[(738246, 10), (738248, 20)] :: workloads"
  have h1: "?snaps \<noteq> []" by simp
  have h2: "get_workloads_by_date fromisoformat ?snaps False = Inr ?w" by code_simp
  have before: "reference_date fromisoformat ?w (Some ''2022-03-31'') 738245" by code_simp
  have inside: "reference_date fromisoformat ?w (Some ''2022-04-02'') 738247" by code_simp
  have m1: "(738245 :: int) \<le> MAXORDINAL" by code_simp
  have m2: "(738247 :: int) \<le> MAXORDINAL" by code_simp
  have s1: "earliest_date ?w > 738245" by code_simp
  have s2: "earliest_date ?w \<le> 738247" by code_simp
  have s3: "MINORDINAL + 8 \<le> (738247 :: int)" "MINORDINAL + 27 \<le> (738247 :: int)"
    by code_simp+
  from range_error_iff [OF h1 h2 before m1] s1
  have "compute_acute_workload fromisoformat ?snaps (Some ''2022-03-31'') False = Inl ValueError_range \<and>
        compute_chronic_workload fromisoformat ?snaps (Some ''2022-03-31'') False = Inl ValueError_range \<and>
        compute_acr fromisoformat ?snaps (Some ''2022-03-31'') False = Inl ValueError_range"
    by blast
  moreover from range_error_iff [OF h1 h2 inside m2] s2 s3
  have "(\<exists>x. compute_acute_workload fromisoformat ?snaps (Some ''2022-04-02'') False = Inr x) \<and>
        (\<exists>x. compute_chronic_workload fromisoformat ?snaps (Some ''2022-04-02'') False = Inr x) \<and>
        (\<exists>x. compute_acr fromisoformat ?snaps (Some ''2022-04-02'') False = Inr x)"
    by (simp only: if_True simp_thms)
  ultimately show ?thesis by blast
qed

theorem range_error_iff_counterexample:
  "get_workloads_by_date fromisoformat
     [\<lparr>date = ''0001-01-02'', dailyWorkload = 5, normDailyWorkload = 1\<rparr>] False = Inr [(2, 5)] \<and>
   fromisoformat ''0001-01-20'' = Some 20 \<and>
   earliest_date [(2, 5)] \<le> 20 \<and>
   compute_chronic_workload fromisoformat
     [\<lparr>date = ''0001-01-02'', dailyWorkload = 5, normDailyWorkload = 1\<rparr>]
     (Some ''0001-01-20'') False = Inl OverflowError \<and>
   compute_acr fromisoformat
     [\<lparr>date = ''0001-01-02'', dailyWorkload = 5, normDailyWorkload = 1\<rparr>]
     (Some ''0001-01-20'') False = Inl OverflowError \<and>
   compute_acute_workload fromisoformat
     [\<lparr>date = ''0001-01-02'', dailyWorkload = 5, normDailyWorkload = 1\<rparr>]
     (Some ''0001-01-05'') False = Inl OverflowError"
  by code_simp

section \<open>Ratio\<close>

text \<open>
  Claim C4. Whenever \<open>compute_chronic_workload\<close> does not raise, \<open>compute_acr\<close> returns
  0.0 if the chronic workload is 0.0, without an error and without dividing by zero, and
  otherwise returns the acute workload divided by the chronic workload on the same
  inputs; the acute workload is then defined as well.
\<close>

theorem acr_zero_chronic:
  assumes "compute_chronic_workload parse snapshots end_date normalized = Inr c"
  shows "(c = 0 \<longrightarrow> compute_acr parse snapshots end_date normalized = Inr 0) \<and>
         (c \<noteq> 0 \<longrightarrow>
            (\<exists>a. compute_acute_workload parse snapshots end_date normalized = Inr a \<and>
                 compute_acr parse snapshots end_date normalized = Inr (a / c)))"
proof -
  from acute_after_chronic [OF assms] obtain a
    where a: "compute_acute_workload parse snapshots end_date normalized = Inr a" ..
  from acr_of_results [OF assms a] a show ?thesis by auto
qed

theorem acr_zero_chronic_witness:
  "compute_acr fromisoformat
     [\<lparr>date = ''2022-04-01'', dailyWorkload = 0, normDailyWorkload = 0\<rparr>] None True = Inr 0 \<and>
   compute_acute_workload fromisoformat
     [\<lparr>date = ''2022-04-01'', dailyWorkload = 10, normDailyWorkload = 1\<rparr>,
      \<lparr>date = ''2022-04-03'', dailyWorkload = 20, normDailyWorkload = 2\<rparr>] None True = Inr (3 / 4) \<and>
   compute_acr fromisoformat
     [\<lparr>date = ''2022-04-01'', dailyWorkload = 10, normDailyWorkload = 1\<rparr>,
      \<lparr>date = ''2022-04-03'', dailyWorkload = 20, normDailyWorkload = 2\<rparr>] None True = Inr (7 / 4)"
proof -
  let ?zero = "[\<lparr>date = ''2022-04-01'', dailyWorkload = 0, normDailyWorkload = 0\<rparr>]"
  let ?snaps = "[\<lparr>date = ''2022-04-01'', dailyWorkload = 10, normDailyWorkload = 1\<rparr>,
      \<lparr>date = ''2022-04-03'', dailyWorkload = 20, normDailyWorkload = 2\<rparr>]"
  have z: "compute_chronic_workload fromisoformat ?zero None True = Inr 0" by code_simp
  have c: "compute_chronic_workload fromisoformat ?snaps None True = Inr (3 / 7)" by code_simp
  have a: "compute_acute_workload fromisoformat ?snaps None True = Inr (3 / 4)" by code_simp
  from acr_zero_chronic [OF z]
  have "compute_acr fromisoformat ?zero None True = Inr 0" by simp
  moreover have "compute_acr fromisoformat ?snaps None True = Inr (7 / 4)"
  proof -
    from acr_zero_chronic [OF c] a
    have "compute_acr fromisoformat ?snaps None True = Inr ((3 / 4) / (3 / 7))" by auto
    then show ?thesis by simp
  qed
  ultimately show ?thesis using a by simp
qed

section \<open>Reference dates outside the data\<close>

text \<open>
  Claim C5, as amended. For a non-empty snapshot list and a reference date \<open>end\<close> that
  predates every key of the workload map by more than 8 days, every lookup
  \<open>W.get(end - offset days, 0.0)\<close> of the acute window whose date \<open>end - offset days\<close>
  exists is 0.0, so every term of the acute sum that can be formed is 0, and
  \<open>compute_acute_workload\<close> raises the range error, since the earliest key is then after
  \<open>end\<close>; it does not return 0.0.
\<close>

theorem early_reference_date:
  assumes "snapshots \<noteq> []"
    and "get_workloads_by_date parse snapshots normalized = Inr w"
    and "reference_date parse w end_date end"
    and "\<forall>d \<in> set (dict_keys w). end + 8 < d"
  shows "(\<forall>offset < 9. \<forall>d. date_minus_days end (int offset) = Inr d \<longrightarrow> dict_get w d 0 = 0) \<and>
         (\<forall>offset < 9. \<forall>t. acute_term w end offset = Inr t \<longrightarrow> t = 0) \<and>
         compute_acute_workload parse snapshots end_date normalized = Inl ValueError_range"
proof (intro conjI)
  have lookup: "dict_get w d 0 = 0" if "date_minus_days end (int offset) = Inr d" for offset d
  proof -
    from that date_minus_days_cases [of "end" "int offset"] have d: "d = end - int offset"
      by auto
    have "d \<notin> set (dict_keys w)"
    proof
      assume "d \<in> set (dict_keys w)"
      with assms(4) have "end + 8 < d" by blast
      with d show False by simp
    qed
    then show ?thesis by (rule dict_get_absent)
  qed
  then show "\<forall>offset < 9. \<forall>d. date_minus_days end (int offset) = Inr d \<longrightarrow> dict_get w d 0 = 0"
    by blast
  show "\<forall>offset < 9. \<forall>t. acute_term w end offset = Inr t \<longrightarrow> t = 0"
  proof (intro allI impI)
    fix offset :: nat and t
    assume "acute_term w end offset = Inr t"
    then obtain d weight where "date_minus_days end (int offset) = Inr d"
      and "t = dict_get w d 0 * weight"
      by (auto simp: acute_term_def split: sum.splits)
    with lookup show "t = 0" by simp
  qed
  have "w \<noteq> []" using assms(2,1) by (rule workloads_nonempty)
  then have "earliest_date w \<in> set (dict_keys w)" by (rule earliest_date_key)
  with assms(4) have "end + 8 < earliest_date w" by blast
  then have "end < earliest_date w" by simp
  then show "compute_acute_workload parse snapshots end_date normalized = Inl ValueError_range"
    by (simp add: acute_unfold [OF assms(2,1,3)])
qed

theorem early_reference_date_witness:
  "date_minus_days 738246 (int 8) = Inr 738238 \<and>
   dict_get [(738275, 3)] 738238 0 = 0 \<and>
   acute_term [(738275, 3)] 738246 8 = Inr 0 \<and>
   compute_acute_workload fromisoformat
     [\<lparr>date = ''2022-04-30'', dailyWorkload = 250, normDailyWorkload = 3\<rparr>]
     (Some ''2022-04-01'') True = Inl ValueError_range"
proof -
  let ?snaps = "[\<lparr>date = ''2022-04-30'', dailyWorkload = 250, normDailyWorkload = 3\<rparr>]"
  let ?w = "[(738275, 3)] :: workloads"
  have h1: "?snaps \<noteq> []" by simp
  have h2: "get_workloads_by_date fromisoformat ?snaps True = Inr ?w" by code_simp
  have h3: "reference_date fromisoformat ?w (Some ''2022-04-01'') 738246" by code_simp
  have h4: "\<forall>d \<in> set (dict_keys ?w). 738246 + 8 < d" by (simp add: dict_keys_def)
  have day: "date_minus_days 738246 (int 8) = Inr 738238" by code_simp
  have day': "date_minus_days 738246 8 = Inr 738238" by code_simp
  obtain t where produced: "acute_term ?w 738246 8 = Inr t"
    by (simp add: acute_term_def day' list_index_def length_ACUTE_WEIGHTS)
  from early_reference_date [OF h1 h2 h3 h4]
  have lookups: "\<forall>offset < 9. \<forall>d. date_minus_days 738246 (int offset) = Inr d \<longrightarrow>
                   dict_get ?w d 0 = 0"
    and terms: "\<forall>offset < 9. \<forall>t. acute_term ?w 738246 offset = Inr t \<longrightarrow> t = 0"
    and raised: "compute_acute_workload fromisoformat ?snaps (Some ''2022-04-01'') True =
                 Inl ValueError_range"
    by blast+
  from lookups [rule_format, of 8, OF _ day] have l: "dict_get ?w 738238 0 = 0" by simp
  from terms [rule_format, of 8, OF _ produced] have "t = 0" by simp
  with produced have "acute_term ?w 738246 8 = Inr 0" by simp
  with day l raised show ?thesis by (simp only: simp_thms)
qed

theorem early_reference_date_counterexample:
  "fromisoformat ''2022-04-30'' = Some 738275 \<and>
   fromisoformat ''2022-04-01'' = Some 738246 \<and>
   get_workloads_by_date fromisoformat
     [\<lparr>date = ''2022-04-30'', dailyWorkload = 250, normDailyWorkload = 3\<rparr>] True =
     Inr [(738275, 3)] \<and>
   (738246 :: int) + 8 < 738275 \<and>
   compute_acute_workload fromisoformat
     [\<lparr>date = ''2022-04-30'', dailyWorkload = 250, normDailyWorkload = 3\<rparr>]
     (Some ''2022-04-01'') True \<noteq> Inr 0 \<and>
   compute_acute_workload fromisoformat
     [\<lparr>date = ''2022-04-30'', dailyWorkload = 250, normDailyWorkload = 3\<rparr>]
     (Some ''2022-04-01'') True = Inl ValueError_range"
  by code_simp

text \<open>
  Claim C6. For a non-empty snapshot list and a reference date that is later than every
  snapshot date by 9 days or more, \<open>compute_acute_workload\<close> returns 0.0 and raises no
  error.
\<close>

theorem late_reference_date:
  assumes "snapshots \<noteq> []"
    and "get_workloads_by_date parse snapshots normalized = Inr w"
    and "reference_date parse w end_date end"
    and "\<forall>d \<in> set (dict_keys w). MINORDINAL \<le> d \<and> d + 9 \<le> end"
    and "end \<le> MAXORDINAL"
  shows "compute_acute_workload parse snapshots end_date normalized = Inr 0"
proof -
  have "w \<noteq> []" using assms(2,1) by (rule workloads_nonempty)
  then have "earliest_date w \<in> set (dict_keys w)" by (rule earliest_date_key)
  with assms(4) have lo: "MINORDINAL \<le> earliest_date w" and gap: "earliest_date w + 9 \<le> end"
    by blast+
  have zero: "dict_get w (end - int offset) 0 * ACUTE_WEIGHTS ! offset = 0"
    if "offset \<in> set [0..<9]" for offset
  proof -
    from that have o: "offset < 9" by simp
    have "end - int offset \<notin> set (dict_keys w)"
    proof
      assume "end - int offset \<in> set (dict_keys w)"
      with assms(4) have "end - int offset + 9 \<le> end" by blast
      with o show False by simp
    qed
    then show ?thesis by (simp add: dict_get_absent)
  qed
  have "(\<Sum>offset\<leftarrow>[0..<9]. dict_get w (end - int offset) 0 * ACUTE_WEIGHTS ! offset) =
        (\<Sum>offset\<leftarrow>[0..<9]. 0)"
    by (rule arg_cong [where f = sum_list], rule map_cong [OF refl]) (rule zero)
  then have s: "(\<Sum>offset\<leftarrow>[0..<9]. dict_get w (end - int offset) 0 * ACUTE_WEIGHTS ! offset) = 0"
    by (simp only: sum_list_0)
  from lo gap have "\<not> earliest_date w > end" "\<not> end < MINORDINAL + 8" by simp_all
  then show ?thesis
    by (simp only: acute_result [OF assms(2,1,3,5)] s if_False div_0)
qed

theorem late_reference_date_witness:
  "compute_acute_workload fromisoformat
     [\<lparr>date = ''2022-04-29'', dailyWorkload = 120, normDailyWorkload = 2\<rparr>,
      \<lparr>date = ''2022-04-30'', dailyWorkload = 250, normDailyWorkload = 3\<rparr>]
     (Some ''2023-04-30'') True = Inr 0"
proof -
  let ?snaps = "[\<lparr>date = ''2022-04-29'', dailyWorkload = 120, normDailyWorkload = 2\<rparr>,
      \<lparr>date = ''2022-04-30'', dailyWorkload = 250, normDailyWorkload = 3\<rparr>]"
  let ?w = "[(738274, 2), (738275, 3)] :: workloads"
  have h1: "?snaps \<noteq> []" by simp
  have h2: "get_workloads_by_date fromisoformat ?snaps True = Inr ?w" by code_simp
  have h3: "reference_date fromisoformat ?w (Some ''2023-04-30'') 738640" by code_simp
  have h4: "\<forall>d \<in> set (dict_keys ?w). MINORDINAL \<le> d \<and> d + 9 \<le> 738640"
    by (simp add: dict_keys_def MINORDINAL_def)
  have h5: "(738640 :: int) \<le> MAXORDINAL" by code_simp
  from late_reference_date [OF h1 h2 h3 h4 h5] show ?thesis .
qed

section \<open>Divisors are never zero\<close>

text \<open>
  Claim C9. For a non-empty snapshot list and a reference date \<open>end\<close> not before the
  earliest snapshot date, the timespan \<open>(end - start).days\<close> is non-negative, the acute
  divisor is at least 3 and the chronic divisor at least 5, and neither
  \<open>compute_acute_workload\<close> nor \<open>compute_chronic_workload\<close> raises
  \<open>ZeroDivisionError\<close>.
\<close>

theorem divisor_never_zero:
  assumes "snapshots \<noteq> []"
    and "get_workloads_by_date parse snapshots normalized = Inr w"
    and "reference_date parse w end_date end"
    and "earliest_date w \<le> end"
  shows "0 \<le> days_between end (earliest_date w) \<and>
         3 \<le> get_acute_divisor (days_between end (earliest_date w)) \<and>
         5 \<le> get_chronic_divisor (days_between end (earliest_date w)) \<and>
         compute_acute_workload parse snapshots end_date normalized \<noteq> Inl ZeroDivisionError \<and>
         compute_chronic_workload parse snapshots end_date normalized \<noteq> Inl ZeroDivisionError"
proof -
  from assms(4) have span: "0 \<le> end - earliest_date w" by simp
  have "compute_acute_workload parse snapshots end_date normalized \<noteq> Inl ZeroDivisionError"
  proof (cases "py_sum (acute_term w end) [0..<ACUTE_LENGTH] 0")
    case (Inl e)
    from py_sum_error [OF this] obtain offset
      where "offset < 9" and "acute_term w end offset = Inl e"
      by (auto simp: ACUTE_LENGTH_def)
    then have "e = OverflowError" using acute_term_errors by blast
    with Inl assms(4) show ?thesis by (simp add: acute_unfold [OF assms(2,1,3)])
  next
    case (Inr numerator)
    with assms(4) truediv_acute_divisor [OF span] show ?thesis
      by (simp add: acute_unfold [OF assms(2,1,3)])
  qed
  moreover
  have "compute_chronic_workload parse snapshots end_date normalized \<noteq> Inl ZeroDivisionError"
  proof (cases "py_sum (chronic_term w end) [0..<CHRONIC_LENGTH] 0")
    case (Inl e)
    from py_sum_error [OF this] obtain offset where "chronic_term w end offset = Inl e"
      by auto
    then have "e = OverflowError" using chronic_term_errors by blast
    with Inl assms(4) show ?thesis by (simp add: chronic_unfold [OF assms(2,1,3)])
  next
    case (Inr numerator)
    with assms(4) truediv_chronic_divisor [OF span] show ?thesis
      by (simp add: chronic_unfold [OF assms(2,1,3)])
  qed
  ultimately show ?thesis
    using span acute_divisor_lower [OF span] chronic_divisor_lower [OF span]
    by (simp add: days_between_def)
qed

theorem divisor_never_zero_witness:
  "(0 :: int) \<le> days_between 738248 738246 \<and>
   get_acute_divisor (days_between 738248 738246) = 5 \<and>
   get_chronic_divisor (days_between 738248 738246) = 7 \<and>
   compute_acute_workload fromisoformat
     [\<lparr>date = ''2022-04-01'', dailyWorkload = 10, normDailyWorkload = 1\<rparr>,
      \<lparr>date = ''2022-04-03'', dailyWorkload = 20, normDailyWorkload = 2\<rparr>] None True
     \<noteq> Inl ZeroDivisionError \<and>
   compute_chronic_workload fromisoformat
     [\<lparr>date = ''2022-04-01'', dailyWorkload = 10, normDailyWorkload = 1\<rparr>,
      \<lparr>date = ''2022-04-03'', dailyWorkload = 20, normDailyWorkload = 2\<rparr>] None True
     \<noteq> Inl ZeroDivisionError"
proof -
  let ?snaps = "[\<lparr>date = ''2022-04-01'', dailyWorkload = 10, normDailyWorkload = 1\<rparr>,
      \<lparr>date = ''2022-04-03'', dailyWorkload = 20, normDailyWorkload = 2\<rparr>]"
  let ?w = "[(738246, 1), (738248, 2)] :: workloads"
  have h1: "?snaps \<noteq> []" by simp
  have h2: "get_workloads_by_date fromisoformat ?snaps True = Inr ?w" by code_simp
  have h3: "reference_date fromisoformat ?w None 738248" by code_simp
  have h4: "earliest_date ?w \<le> 738248" by code_simp
  have e: "earliest_date ?w = 738246" by code_simp
  have d: "get_acute_divisor (days_between 738248 738246) = 5"
    "get_chronic_divisor (days_between 738248 738246) = 7"
    by code_simp+
  from divisor_never_zero [OF h1 h2 h3 h4] d show ?thesis by (simp only: e) simp
qed

section \<open>Tag filter\<close>

text \<open>
  Claim C7. For every event list and every tag argument, the whitelist result
  \<open>filter_by_tag events tags False\<close> and the blacklist result
  \<open>filter_by_tag events tags True\<close> are disjoint, together they hold exactly the
  elements of the event list, and their lengths add up to its length: each event goes to
  exactly one of the two.
\<close>

theorem filter_by_tag_partition:
  "set (filter_by_tag events tags False) \<inter> set (filter_by_tag events tags True) = {} \<and>
   set (filter_by_tag events tags False) \<union> set (filter_by_tag events tags True) = set events \<and>
   length (filter_by_tag events tags False) + length (filter_by_tag events tags True) =
     length events"
proof (intro conjI)
  show "set (filter_by_tag events tags False) \<inter> set (filter_by_tag events tags True) = {}"
    by (auto simp: filter_by_tag_def)
  show "set (filter_by_tag events tags False) \<union> set (filter_by_tag events tags True) = set events"
    by (auto simp: filter_by_tag_def)
  show "length (filter_by_tag events tags False) + length (filter_by_tag events tags True) =
     length events"
    by (simp add: filter_by_tag_def sum_length_filter_compl)
qed

theorem filter_by_tag_partition_witness:
  "filter_by_tag
     [\<lparr>tag = Some ''Plyo'', simulated = None, highEffort = Some False,
        workload = 8, normalizedWorkload = 1\<rparr>,
      \<lparr>tag = None, simulated = None, highEffort = Some True,
        workload = 117, normalizedWorkload = 2\<rparr>] (Tag ''Plyo'') False =
     [\<lparr>tag = Some ''Plyo'', simulated = None, highEffort = Some False,
        workload = 8, normalizedWorkload = 1\<rparr>] \<and>
   length (filter_by_tag
     [\<lparr>tag = Some ''Plyo'', simulated = None, highEffort = Some False,
        workload = 8, normalizedWorkload = 1\<rparr>,
      \<lparr>tag = None, simulated = None, highEffort = Some True,
        workload = 117, normalizedWorkload = 2\<rparr>] (Tag ''Plyo'') True) = 1"
proof -
  let ?events = "[\<lparr>tag = Some ''Plyo'', simulated = None, highEffort = Some False,
        workload = 8, normalizedWorkload = 1\<rparr>,
      \<lparr>tag = None, simulated = None, highEffort = Some True,
        workload = 117, normalizedWorkload = 2\<rparr>]"
  have w: "filter_by_tag ?events (Tag ''Plyo'') False =
     [\<lparr>tag = Some ''Plyo'', simulated = None, highEffort = Some False,
        workload = 8, normalizedWorkload = 1\<rparr>]"
    by (simp add: filter_by_tag_def)
  from filter_by_tag_partition [of ?events "Tag ''Plyo''"]
  have "length (filter_by_tag ?events (Tag ''Plyo'') False) +
        length (filter_by_tag ?events (Tag ''Plyo'') True) = length ?events"
    by blast
  then have "length (filter_by_tag ?events (Tag ''Plyo'') True) = 1"
    by (simp only: w) simp
  with w show ?thesis by simp
qed

section \<open>Empty snapshot list\<close>

text \<open>
  Claim C8. On the empty snapshot list, \<open>compute_acute_workload\<close>,
  \<open>compute_chronic_workload\<close> and \<open>compute_acr\<close> all fail with the \<open>ValueError\<close> of
  \<open>min\<close> on an empty sequence, whatever the other arguments are; none returns a float.
\<close>

theorem empty_snapshots_raise:
  "compute_acute_workload parse [] end_date normalized = Inl ValueError_empty \<and>
   compute_chronic_workload parse [] end_date normalized = Inl ValueError_empty \<and>
   compute_acr parse [] end_date normalized = Inl ValueError_empty \<and>
   is_ValueError ValueError_empty"
  by (simp add: compute_acute_workload_def compute_chronic_workload_def compute_acr_def
      get_workloads_by_date_def dict_keys_def)

theorem empty_snapshots_raise_witness:
  "compute_acute_workload fromisoformat [] (Some ''2022-04-30'') True = Inl ValueError_empty \<and>
   compute_chronic_workload fromisoformat [] None False = Inl ValueError_empty \<and>
   compute_acr fromisoformat [] (Some ''not a date'') True = Inl ValueError_empty"
  using empty_snapshots_raise [of fromisoformat "Some ''2022-04-30''" True]
    empty_snapshots_raise [of fromisoformat None False]
    empty_snapshots_raise [of fromisoformat "Some ''not a date''" True]
  by blast

section \<open>Workload map\<close>

text \<open>
  Claim C10. For every snapshot list whose dates parse, \<open>_get_workloads_by_date\<close>
  returns a map with distinct keys, the keys are exactly the parsed dates of the records,
  and a date maps to the value of the last record of the input that carries it.
\<close>

theorem workloads_keys_last_wins:
  assumes "\<forall>s \<in> set snapshots. parse (date s) \<noteq> None"
  shows "\<exists>w. get_workloads_by_date parse snapshots normalized = Inr w \<and>
           distinct (dict_keys w) \<and>
           set (dict_keys w) = (\<lambda>s. the (parse (date s))) ` set snapshots \<and>
           (\<forall>pre s post.
              snapshots = pre @ s # post \<and>
              (\<forall>t \<in> set post. parse (date t) \<noteq> parse (date s)) \<longrightarrow>
              map_of w (the (parse (date s))) = Some (selected_workload normalized s))"
proof -
  from comprehension_total [OF assms] obtain w
    where w: "workloads_comprehension parse normalized snapshots [] = Inr w"
    by blast
  have "distinct (dict_keys w)"
    using comprehension_distinct [OF w] by (simp add: dict_keys_def)
  moreover have "set (dict_keys w) = (\<lambda>s. the (parse (date s))) ` set snapshots"
    using comprehension_keys [OF w] by (simp add: dict_keys_def)
  moreover have "map_of w (the (parse (date s))) = Some (selected_workload normalized s)"
    if "snapshots = pre @ s # post" and "\<forall>t \<in> set post. parse (date t) \<noteq> parse (date s)"
    for pre s post
    using comprehension_last_wins [of parse normalized pre s post "[]" w] w that by simp
  ultimately show ?thesis
    unfolding get_workloads_by_date_def using w by blast
qed

theorem workloads_keys_last_wins_witness:
  "get_workloads_by_date fromisoformat
     [\<lparr>date = ''2022-04-01'', dailyWorkload = 10, normDailyWorkload = 1\<rparr>,
      \<lparr>date = ''2022-04-03'', dailyWorkload = 20, normDailyWorkload = 2\<rparr>,
      \<lparr>date = ''2022-04-01'', dailyWorkload = 50, normDailyWorkload = 5\<rparr>] True =
     Inr [(738246, 5), (738248, 2)] \<and>
   distinct (dict_keys [(738246, 5), (738248, 2)]) \<and>
   map_of [(738246, 5), (738248, 2)] (738246 :: int) = Some (5 :: real)"
proof -
  let ?s1 = "\<lparr>date = ''2022-04-01'', dailyWorkload = 10, normDailyWorkload = 1\<rparr>"
  let ?s2 = "\<lparr>date = ''2022-04-03'', dailyWorkload = 20, normDailyWorkload = 2\<rparr>"
  let ?s3 = "\<lparr>date = ''2022-04-01'', dailyWorkload = 50, normDailyWorkload = 5\<rparr>"
  let ?w = "[(738246, 5), (738248, 2)] :: workloads"
  have p1: "fromisoformat ''2022-04-01'' = Some 738246" by code_simp
  have p2: "fromisoformat ''2022-04-03'' = Some 738248" by code_simp
  have h: "\<forall>s \<in> set [?s1, ?s2, ?s3]. fromisoformat (date s) \<noteq> None"
    by (simp add: p1 p2)
  have g: "get_workloads_by_date fromisoformat [?s1, ?s2, ?s3] True = Inr ?w" by code_simp
  from workloads_keys_last_wins [OF h, of True] obtain w
    where w: "get_workloads_by_date fromisoformat [?s1, ?s2, ?s3] True = Inr w"
      and d: "distinct (dict_keys w)"
      and l: "\<forall>pre s post.
              [?s1, ?s2, ?s3] = pre @ s # post \<and>
              (\<forall>t \<in> set post. fromisoformat (date t) \<noteq> fromisoformat (date s)) \<longrightarrow>
              map_of w (the (fromisoformat (date s))) = Some (selected_workload True s)"
    by (elim exE conjE)
  from w g have weq: "w = ?w" by (simp only: sum.inject)
  have split: "[?s1, ?s2, ?s3] = [?s1, ?s2] @ ?s3 # [] \<and>
              (\<forall>t \<in> set []. fromisoformat (date t) \<noteq> fromisoformat (date ?s3))"
    by simp
  from l [rule_format, OF split]
  have "map_of w (the (fromisoformat (date ?s3))) = Some (selected_workload True ?s3)" .
  then have "map_of ?w (738246 :: int) = Some (5 :: real)"
    by (simp add: p1 selected_workload_def weq)
  with g d show ?thesis by (simp only: weq simp_thms)
qed

end
